theory Spec2Isabelle
  imports Complex_Main "HOL-Library.Log_Nat"
begin

section \<open>Data model (apps/payments/models.py, apps/orders/models.py)\<close>

text \<open>
  The Django models become records, one per table row. Choice fields become datatypes,
  \<open>CharField\<close>s that the code compares with literals stay strings, \<open>DecimalField\<close>s are
  rationals (see the section on \<open>decimal.Decimal\<close>), \<open>IntegerField\<close>s are integers and
  \<open>DateTimeField\<close>s are integers (a point in time, in microseconds), \<open>None\<close> where
  the column is nullable. Foreign keys hold the primary key of the row they point to.
  Columns that no payment operation reads or writes (the shipping address of an order,
  its subtotal and taxes, its order number) are left out of the order row.
\<close>

datatype payment_method = crypto_btc | crypto_eth | crypto_usdt | stripe | paypal

datatype payment_status = Pending | Processing | Confirmed | Failed | Expired | Refunded

datatype order_status =
  OrderPending | OrderProcessing | Paid | Shipped | Delivered | Cancelled | OrderRefunded

record order =
  order_id :: nat
  order_user :: nat
  order_status :: order_status
  total :: rat
  order_updated_at :: int
  paid_at :: "int option"

record payment =
  payment_id :: nat
  payment_order :: nat
  payment_user :: nat
  payment_method :: payment_method
  status :: payment_status
  amount :: rat
  currency :: string
  crypto_amount :: "rat option"
  crypto_currency :: string
  wallet_address :: string
  transaction_hash :: string
  confirmations :: int
  required_confirmations :: int
  external_id :: string
  created_at :: int
  updated_at :: int
  confirmed_at :: "int option"
  expires_at :: "int option"

record crypto_wallet =
  wallet_id :: nat
  wallet_payment :: nat
  wallet_currency :: string
  address :: string
  private_key_encrypted :: string
  derivation_path :: string
  is_used :: bool
  wallet_created_at :: int

text \<open>
  Celery tasks that a request schedules (\<open>task.delay(id)\<close>,
  \<open>task.apply_async(args=[id], countdown=n)\<close>): the task, the payment it is for and the
  countdown in seconds.
\<close>

datatype task =
  MonitorCryptoPayment nat nat
  | MonitorTransactionConfirmations nat nat
  | SendPaymentConfirmationEmail nat

text \<open>
  The state the payment code works on: the three tables, each a list of rows in the
  order a query returns them, and the queue of scheduled tasks.
\<close>

record system =
  orders :: "order list"
  payments :: "payment list"
  wallets :: "crypto_wallet list"
  task_queue :: "task list"

section \<open>Exceptions and responses\<close>

text \<open>
  The exceptions the payment code can meet, and what an endpoint answers: the returned
  body (status 200), a status code with a detail (\<open>router.create_response\<close>), or the
  500 of the framework for an exception that leaves the function.
\<close>

datatype exn = DivisionByZero | InvalidOperation | IntegrityError | TypeError

datatype 'a response = Response 'a | ErrorResponse nat string | ServerError exn

section \<open>decimal.Decimal\<close>

text \<open>
  Amounts are \<open>decimal.Decimal\<close> values, modelled by the rational number they denote.
  The arithmetic runs in Python's default context: a quotient or a product is rounded
  to 28 significant digits, ties to even (\<open>ROUND_HALF_EVEN\<close>); \<open>quantize\<close> rounds to a
  fixed number of decimal places, ties to even, and raises \<open>InvalidOperation\<close> when the
  result needs more than 28 digits; comparisons are exact. The exponent limits of the
  context (\<open>Emax = 999999\<close>) are far from any amount and are not modelled.
  \<open>adjusted x\<close> is the exponent of the leading digit of a nonzero \<open>x\<close>.
\<close>

definition round_half_even :: "rat \<Rightarrow> int" where
  "round_half_even x =
     (let f = \<lfloor>x\<rfloor>; r = x - of_int f
      in if r < 1 / 2 then f else if 1 / 2 < r then f + 1 else if even f then f else f + 1)"

definition adjusted :: "rat \<Rightarrow> int" where
  "adjusted x =
     (let (a, b) = quotient_of \<bar>x\<bar>;
          d = int (floorlog 10 (nat a)) - int (floorlog 10 (nat b))
      in if 10 powi d \<le> \<bar>x\<bar> then d else d - 1)"

definition prec :: nat where
  "prec = 28"

definition context_round :: "rat \<Rightarrow> rat" where
  "context_round x =
     (if x = 0 then 0
      else (let q = adjusted x - int prec + 1
            in of_int (round_half_even (x / 10 powi q)) * 10 powi q))"

definition decimal_div :: "rat \<Rightarrow> rat \<Rightarrow> exn + rat" where
  "decimal_div x y =
     (if y = 0 then Inl (if x = 0 then InvalidOperation else DivisionByZero)
      else Inr (context_round (x / y)))"

definition decimal_mul :: "rat \<Rightarrow> rat \<Rightarrow> rat" where
  "decimal_mul x y = context_round (x * y)"

definition quantize :: "rat \<Rightarrow> nat \<Rightarrow> exn + rat" where
  "quantize x places =
     (let c = round_half_even (x * 10 ^ places)
      in if 10 ^ prec \<le> \<bar>c\<bar> then Inl InvalidOperation else Inr (of_int c / 10 ^ places))"

section \<open>The ORM calls the payment code makes\<close>

text \<open>
  \<open>Payment.objects.get(id=...)\<close> raises \<open>DoesNotExist\<close> when there is no row: \<open>None\<close>.
  \<open>payment.order\<close> loads the order the foreign key names; a dangling key raises, \<open>None\<close>.
\<close>

definition Payment_get :: "nat \<Rightarrow> system \<Rightarrow> payment option" where
  "Payment_get pid s = find (\<lambda>row. payment_id row = pid) (payments s)"

definition Order_get :: "nat \<Rightarrow> system \<Rightarrow> order option" where
  "Order_get oid s = find (\<lambda>row. order_id row = oid) (orders s)"

text \<open>
  \<open>obj.save()\<close> on an object loaded from the table writes every column of the object
  to the row with its primary key; \<open>updated_at\<close> is \<open>auto_now\<close>, stamped at each save.
  \<open>Order.save()\<close> also gives an order without an order number a fresh one; that happens
  at the first save of an order, so for the stored orders a payment works on it changes
  nothing. All clock readings of one request or task run are taken to be one value
  \<open>now\<close>.
\<close>

definition Payment_save :: "int \<Rightarrow> payment \<Rightarrow> system \<Rightarrow> system" where
  "Payment_save now p s =
     s\<lparr>payments :=
         map (\<lambda>row. if payment_id row = payment_id p then p\<lparr>updated_at := now\<rparr> else row)
           (payments s)\<rparr>"

definition Order_save :: "int \<Rightarrow> order \<Rightarrow> system \<Rightarrow> system" where
  "Order_save now ord s =
     s\<lparr>orders :=
         map (\<lambda>row. if order_id row = order_id ord then ord\<lparr>order_updated_at := now\<rparr> else row)
           (orders s)\<rparr>"

text \<open>\<open>payment.wallets.update(is_used=v)\<close>: one UPDATE over the wallets of the payment.\<close>

definition payment_wallets_update :: "nat \<Rightarrow> bool \<Rightarrow> system \<Rightarrow> system" where
  "payment_wallets_update pid v s =
     s\<lparr>wallets :=
         map (\<lambda>w. if wallet_payment w = pid then w\<lparr>is_used := v\<rparr> else w) (wallets s)\<rparr>"

definition delay :: "task \<Rightarrow> system \<Rightarrow> system" where
  "delay t s = s\<lparr>task_queue := task_queue s @ [t]\<rparr>"

section \<open>The processors (apps/payments/crypto/bitcoin.py, ethereum.py)\<close>

datatype processor = BitcoinPaymentProcessor | EthereumPaymentProcessor

definition select_processor :: "string \<Rightarrow> processor" where
  "select_processor cur =
     (if cur = ''BTC'' then BitcoinPaymentProcessor else EthereumPaymentProcessor)"

definition get_btc_price :: rat where
  "get_btc_price = 35000"

definition get_eth_price :: rat where
  "get_eth_price = 2500"

text \<open>
  The body of both \<open>calculate_crypto_amount\<close> methods,
  \<open>(Decimal(str(eur_amount)) / price).quantize(Decimal(quantum))\<close>, with the price the
  method reads and the number of decimal places of its quantum as arguments.
\<close>

definition calculate_crypto_amount_at :: "rat \<Rightarrow> nat \<Rightarrow> rat \<Rightarrow> exn + rat" where
  "calculate_crypto_amount_at price places eur_amount =
     (case decimal_div eur_amount price of
        Inl e \<Rightarrow> Inl e
      | Inr q \<Rightarrow> quantize q places)"

definition calculate_crypto_amount :: "processor \<Rightarrow> rat \<Rightarrow> exn + rat" where
  "calculate_crypto_amount proc eur_amount =
     (case proc of
        BitcoinPaymentProcessor \<Rightarrow> calculate_crypto_amount_at get_btc_price 8 eur_amount
      | EthereumPaymentProcessor \<Rightarrow> calculate_crypto_amount_at get_eth_price 6 eur_amount)"

text \<open>
  The amount test of \<open>monitor_address\<close>. Bitcoin: the output value in satoshi is divided
  by \<open>Decimal('100000000')\<close> and compared with \<open>expected_amount * Decimal('0.99')\<close>.
  Ethereum: \<open>Web3.from_wei(value, 'ether')\<close> divides by \<open>10 ^ 18\<close> in a context of 999
  digits, which holds every 256-bit value exactly. An \<open>expected_amount\<close> of \<open>None\<close> (the
  column is nullable) makes the product raise \<open>TypeError\<close>.
\<close>

definition from_wei :: "nat \<Rightarrow> rat" where
  "from_wei number = of_nat number / 10 ^ 18"

definition Bitcoin_amount_accepted :: "nat \<Rightarrow> rat option \<Rightarrow> exn + bool" where
  "Bitcoin_amount_accepted val expected_amount =
     (case expected_amount of
        None \<Rightarrow> Inl TypeError
      | Some expected \<Rightarrow>
          Inr (decimal_mul expected (99 / 100) \<le> context_round (of_nat val / 100000000)))"

definition Ethereum_amount_accepted :: "nat \<Rightarrow> rat option \<Rightarrow> exn + bool" where
  "Ethereum_amount_accepted val expected_amount =
     (case expected_amount of
        None \<Rightarrow> Inl TypeError
      | Some expected \<Rightarrow> Inr (decimal_mul expected (99 / 100) \<le> from_wei val))"

record tx_output =
  output_address :: string
  output_value :: nat

record btc_tx =
  txid :: string
  outputs :: "tx_output list"

record eth_tx =
  tx_to :: "string option"
  tx_value :: nat
  tx_hash :: string

text \<open>
  How a run of \<open>monitor_address\<close> ends: the callback was called with a transaction, an
  exception left the loop, or the loop is still polling when the observed answers of
  the ledger run out.
\<close>

datatype outcome = Detected string | Raised exn | Running

text \<open>
  Bitcoin, the scan of one poll. An exception inside the \<open>try\<close> is logged and ends the
  poll; the transaction being looked at was already added to \<open>checked_txs\<close>.
\<close>

fun scan_outputs :: "string \<Rightarrow> rat option \<Rightarrow> tx_output list \<Rightarrow> exn + bool" where
  "scan_outputs addr expected_amount [] = Inr False"
| "scan_outputs addr expected_amount (output # rest) =
     (if output_address output = addr then
        (case Bitcoin_amount_accepted (output_value output) expected_amount of
           Inl e \<Rightarrow> Inl e
         | Inr accepted \<Rightarrow>
             if accepted then Inr True else scan_outputs addr expected_amount rest)
      else scan_outputs addr expected_amount rest)"

fun scan_txs ::
  "string \<Rightarrow> rat option \<Rightarrow> string list \<Rightarrow> btc_tx list \<Rightarrow> string option \<times> string list" where
  "scan_txs addr expected_amount checked_txs [] = (None, checked_txs)"
| "scan_txs addr expected_amount checked_txs (tx # rest) =
     (if txid tx \<in> set checked_txs then scan_txs addr expected_amount checked_txs rest
      else
        (case scan_outputs addr expected_amount (outputs tx) of
           Inl e \<Rightarrow> (None, txid tx # checked_txs)
         | Inr found \<Rightarrow>
             if found then (Some (txid tx), txid tx # checked_txs)
             else scan_txs addr expected_amount (txid tx # checked_txs) rest))"

text \<open>
  The polling loop over the answers of \<open>service.getaddresstxs(address)\<close>, one per
  iteration, \<open>None\<close> where the call raised.
\<close>

fun Bitcoin_poll ::
  "string \<Rightarrow> rat option \<Rightarrow> string list \<Rightarrow> btc_tx list option list \<Rightarrow> outcome" where
  "Bitcoin_poll addr expected_amount checked_txs [] = Running"
| "Bitcoin_poll addr expected_amount checked_txs (None # polls) =
     Bitcoin_poll addr expected_amount checked_txs polls"
| "Bitcoin_poll addr expected_amount checked_txs (Some txs # polls) =
     (case scan_txs addr expected_amount checked_txs txs of
        (Some h, checked) \<Rightarrow> Detected h
      | (None, checked) \<Rightarrow> Bitcoin_poll addr expected_amount checked polls)"

definition Bitcoin_monitor_address ::
  "string \<Rightarrow> rat option \<Rightarrow> btc_tx list option list \<Rightarrow> outcome" where
  "Bitcoin_monitor_address addr expected_amount polls =
     Bitcoin_poll addr expected_amount [] polls"

text \<open>\<open>str.lower()\<close> on the ASCII letters an address is written in.\<close>

definition lower :: "string \<Rightarrow> string" where
  "lower str =
     map (\<lambda>c. if 65 \<le> (of_char c :: nat) \<and> (of_char c :: nat) \<le> 90
              then char_of (of_char c + 32 :: nat) else c) str"

text \<open>Ethereum, the transactions of one block and the blocks of one poll.\<close>

fun scan_transactions :: "string \<Rightarrow> rat option \<Rightarrow> eth_tx list \<Rightarrow> exn + string option" where
  "scan_transactions addr expected_amount [] = Inr None"
| "scan_transactions addr expected_amount (tx # rest) =
     (case tx_to tx of
        None \<Rightarrow> scan_transactions addr expected_amount rest
      | Some to \<Rightarrow>
          if to \<noteq> [] \<and> lower to = lower addr then
            (case Ethereum_amount_accepted (tx_value tx) expected_amount of
               Inl e \<Rightarrow> Inl e
             | Inr accepted \<Rightarrow>
                 if accepted then Inr (Some (tx_hash tx))
                 else scan_transactions addr expected_amount rest)
          else scan_transactions addr expected_amount rest)"

fun scan_blocks ::
  "(nat \<Rightarrow> eth_tx list) \<Rightarrow> string \<Rightarrow> rat option \<Rightarrow> nat list \<Rightarrow> exn + string option" where
  "scan_blocks get_block addr expected_amount [] = Inr None"
| "scan_blocks get_block addr expected_amount (block_num # rest) =
     (case scan_transactions addr expected_amount (get_block block_num) of
        Inl e \<Rightarrow> Inl e
      | Inr (Some h) \<Rightarrow> Inr (Some h)
      | Inr None \<Rightarrow> scan_blocks get_block addr expected_amount rest)"

text \<open>
  The polling loop over the readings of \<open>w3.eth.block_number\<close>, one per iteration; the
  first reading sets \<open>last_block\<close> before the loop.
\<close>

fun Ethereum_poll ::
  "(nat \<Rightarrow> eth_tx list) \<Rightarrow> string \<Rightarrow> rat option \<Rightarrow> nat \<Rightarrow> nat list \<Rightarrow> outcome" where
  "Ethereum_poll get_block addr expected_amount last_block [] = Running"
| "Ethereum_poll get_block addr expected_amount last_block (current_block # readings) =
     (if current_block > last_block then
        (case scan_blocks get_block addr expected_amount [last_block + 1 ..< current_block + 1] of
           Inl e \<Rightarrow> Raised e
         | Inr (Some h) \<Rightarrow> Detected h
         | Inr None \<Rightarrow> Ethereum_poll get_block addr expected_amount current_block readings)
      else Ethereum_poll get_block addr expected_amount last_block readings)"

definition Ethereum_monitor_address ::
  "(nat \<Rightarrow> eth_tx list) \<Rightarrow> string \<Rightarrow> rat option \<Rightarrow> nat list \<Rightarrow> outcome" where
  "Ethereum_monitor_address get_block addr expected_amount readings =
     (case readings of
        [] \<Rightarrow> Running
      | last_block # rest \<Rightarrow> Ethereum_poll get_block addr expected_amount last_block rest)"

text \<open>What the two ledgers answer during one run of a monitoring task.\<close>

record ledger =
  getaddresstxs :: "btc_tx list option list"
  get_block :: "nat \<Rightarrow> eth_tx list"
  block_number :: "nat list"

definition monitor_address :: "ledger \<Rightarrow> processor \<Rightarrow> string \<Rightarrow> rat option \<Rightarrow> outcome" where
  "monitor_address l proc addr expected_amount =
     (case proc of
        BitcoinPaymentProcessor \<Rightarrow> Bitcoin_monitor_address addr expected_amount (getaddresstxs l)
      | EthereumPaymentProcessor \<Rightarrow>
          Ethereum_monitor_address (get_block l) addr expected_amount (block_number l))"

section \<open>Initiating a payment (apps/payments/api.py, initiate_payment)\<close>

record payment_initiate =
  data_order_id :: nat
  data_payment_method :: payment_method

text \<open>What \<open>processor.generate_wallet()\<close> returns; the Ethereum processor gives no path.\<close>

record wallet_data =
  wd_address :: string
  wd_private_key :: string
  wd_derivation_path :: "string option"

text \<open>The response body, without the order number and the rendered QR image.\<close>

record crypto_payment_response =
  resp_payment_id :: nat
  resp_amount_eur :: rat
  resp_crypto_amount :: rat
  resp_crypto_currency :: string
  resp_wallet_address :: string
  resp_expires_at :: "int option"

text \<open>The next value of an auto-increment primary key.\<close>

definition next_id :: "nat list \<Rightarrow> nat" where
  "next_id ids = Suc (foldr max ids 0)"

text \<open>
  \<open>Payment.objects.create(...)\<close>: \<open>Payment.order\<close> is a \<open>OneToOneField\<close>, so the column
  is unique and a second payment for the same order raises \<open>IntegrityError\<close>.
  \<open>CryptoWallet.objects.create(...)\<close>: \<open>address\<close> is unique.
\<close>

definition Payment_create :: "int \<Rightarrow> payment \<Rightarrow> system \<Rightarrow> exn + payment \<times> system" where
  "Payment_create now p s =
     (if list_ex (\<lambda>row. payment_order row = payment_order p) (payments s) then Inl IntegrityError
      else (let row = p\<lparr>payment_id := next_id (map payment_id (payments s)),
                         created_at := now, updated_at := now\<rparr>
            in Inr (row, s\<lparr>payments := row # payments s\<rparr>)))"

definition CryptoWallet_create :: "int \<Rightarrow> crypto_wallet \<Rightarrow> system \<Rightarrow> exn + system" where
  "CryptoWallet_create now w s =
     (if list_ex (\<lambda>row. address row = address w) (wallets s) then Inl IntegrityError
      else Inr (s\<lparr>wallets :=
                    wallets s @ [w\<lparr>wallet_id := next_id (map wallet_id (wallets s)),
                                   wallet_created_at := now\<rparr>]\<rparr>))"

definition timedelta_minutes :: "int \<Rightarrow> int" where
  "timedelta_minutes n = n * 60 * 1000000"

text \<open>
  The request runs in one database transaction (\<open>@transaction.atomic\<close>): an exception
  that leaves the function undoes its writes, and the framework answers 500.
\<close>

definition initiate_payment ::
  "int \<Rightarrow> (processor \<Rightarrow> wallet_data) \<Rightarrow> nat \<Rightarrow> payment_initiate \<Rightarrow> system \<Rightarrow>
   crypto_payment_response response \<times> system" where
  "initiate_payment now generate_wallet auth data s =
     (case find (\<lambda>row. order_id row = data_order_id data \<and> order_user row = auth) (orders s) of
        None \<Rightarrow> (ErrorResponse 404 ''Not Found'', s)
      | Some ord \<Rightarrow>
          if (case find (\<lambda>row. payment_order row = order_id ord) (payments s) of
                None \<Rightarrow> False
              | Some p \<Rightarrow> status p \<noteq> Failed)
          then (ErrorResponse 400 ''Esta orden ya tiene un pago asociado'', s)
          else
            (case (if data_payment_method data = crypto_btc
                   then Some (BitcoinPaymentProcessor, ''BTC'')
                   else if data_payment_method data \<in> {crypto_eth, crypto_usdt}
                   then Some (EthereumPaymentProcessor,
                              if data_payment_method data = crypto_eth then ''ETH'' else ''USDT'')
                   else None) of
               None \<Rightarrow> (ErrorResponse 400 (''M'' @ [CHR 0xC3, CHR 0xA9] @ ''todo de pago no soportado''), s)
             | Some (proc, crypto_cur) \<Rightarrow>
                 (let wallet = generate_wallet proc in
                  case calculate_crypto_amount proc (total ord) of
                    Inl e \<Rightarrow> (ServerError e, s)
                  | Inr amount_crypto \<Rightarrow>
                      (case Payment_create now
                              \<lparr>payment_id = 0, payment_order = order_id ord, payment_user = auth,
                               payment_method = data_payment_method data, status = Pending,
                               amount = total ord, currency = ''EUR'',
                               crypto_amount = Some amount_crypto, crypto_currency = crypto_cur,
                               wallet_address = wd_address wallet, transaction_hash = [],
                               confirmations = 0, required_confirmations = 3, external_id = [],
                               created_at = now, updated_at = now, confirmed_at = None,
                               expires_at = Some (now + timedelta_minutes 30)\<rparr> s of
                         Inl e \<Rightarrow> (ServerError e, s)
                       | Inr (payment, s1) \<Rightarrow>
                           (case CryptoWallet_create now
                                   \<lparr>wallet_id = 0, wallet_payment = payment_id payment,
                                    wallet_currency = crypto_cur, address = wd_address wallet,
                                    private_key_encrypted = wd_private_key wallet,
                                    derivation_path =
                                      (case wd_derivation_path wallet of None \<Rightarrow> [] | Some path \<Rightarrow> path),
                                    is_used = False, wallet_created_at = now\<rparr> s1 of
                              Inl e \<Rightarrow> (ServerError e, s)
                            | Inr s2 \<Rightarrow>
                                (Response
                                   \<lparr>resp_payment_id = payment_id payment,
                                    resp_amount_eur = total ord,
                                    resp_crypto_amount = amount_crypto,
                                    resp_crypto_currency = crypto_cur,
                                    resp_wallet_address = wd_address wallet,
                                    resp_expires_at = expires_at payment\<rparr>,
                                 delay (MonitorCryptoPayment (payment_id payment) 0) s2))))))"

section \<open>The webhook endpoint (apps/payments/api.py, payment_webhook)\<close>

record webhook_payload =
  data_payment_id :: nat
  data_transaction_hash :: string
  data_confirmations :: int
  data_amount :: rat
  data_from_address :: string

text \<open>
  The payment is loaded, its hash and confirmation count are assigned from the payload,
  and at the threshold the payment is confirmed, the order is marked paid and saved, and
  the confirmation email is scheduled; then the payment is saved. An unknown payment id
  answers 404. Any other exception answers 500: the in-memory payment is dropped, and
  the only call that can raise before a write is the load of \<open>payment.order\<close>.
\<close>

definition payment_webhook ::
  "int \<Rightarrow> string \<Rightarrow> webhook_payload \<Rightarrow> system \<Rightarrow> unit response \<times> system" where
  "payment_webhook now provider data s =
     (case Payment_get (data_payment_id data) s of
        None \<Rightarrow> (ErrorResponse 404 ''Payment not found'', s)
      | Some row \<Rightarrow>
          (let payment = row\<lparr>transaction_hash := data_transaction_hash data,
                             confirmations := data_confirmations data\<rparr>
           in if data_confirmations data \<ge> required_confirmations payment then
                (case Order_get (payment_order payment) s of
                   None \<Rightarrow> (ErrorResponse 500 ''Internal error'', s)
                 | Some ord \<Rightarrow>
                     (Response (),
                      Payment_save now (payment\<lparr>status := Confirmed, confirmed_at := Some now\<rparr>)
                        (delay (SendPaymentConfirmationEmail (payment_id payment))
                          (Order_save now (ord\<lparr>order_status := Paid, paid_at := Some now\<rparr>) s))))
              else (Response (), Payment_save now payment s)))"

section \<open>The address monitor task (apps/payments/tasks.py, monitor_crypto_payment)\<close>

text \<open>
  Only a pending payment that has not expired is monitored; a NULL \<open>expires_at\<close> makes
  the comparison raise. When \<open>monitor_address\<close> calls back, the hash is recorded, the
  payment moves to processing and the confirmation monitor is scheduled. Any exception
  is logged and the task is scheduled again in 30 seconds.
\<close>

definition monitor_crypto_payment :: "int \<Rightarrow> ledger \<Rightarrow> nat \<Rightarrow> system \<Rightarrow> system" where
  "monitor_crypto_payment now l pid s =
     (case Payment_get pid s of
        None \<Rightarrow> s
      | Some payment \<Rightarrow>
          if status payment \<noteq> Pending then s
          else
            (case expires_at payment of
               None \<Rightarrow> delay (MonitorCryptoPayment pid 30) s
             | Some t \<Rightarrow>
                 if t < now then s
                 else
                   (case monitor_address l (select_processor (crypto_currency payment))
                           (wallet_address payment) (crypto_amount payment) of
                      Detected h \<Rightarrow>
                        delay (MonitorTransactionConfirmations pid 0)
                          (Payment_save now (payment\<lparr>transaction_hash := h, status := Processing\<rparr>) s)
                    | Raised e \<Rightarrow> delay (MonitorCryptoPayment pid 30) s
                    | Running \<Rightarrow> s)))"

section \<open>The confirmation monitor (apps/payments/tasks.py)\<close>

text \<open>
  What \<open>processor.check_transaction(tx_hash)\<close> answers comes from the ledger: the task
  takes it as a function of the processor and the hash, \<open>None\<close> when the ledger has no
  such transaction or the query failed.
\<close>

record tx_info =
  tx_confirmed :: bool
  tx_confirmations :: int

definition monitor_transaction_confirmations ::
  "int \<Rightarrow> (processor \<Rightarrow> string \<Rightarrow> tx_info option) \<Rightarrow> nat \<Rightarrow> system \<Rightarrow> system" where
  "monitor_transaction_confirmations now check_transaction pid s =
     (case Payment_get pid s of
        None \<Rightarrow> s
      | Some row \<Rightarrow>
          if status row \<noteq> Processing \<or> transaction_hash row = [] then s
          else
            (case check_transaction (select_processor (crypto_currency row)) (transaction_hash row) of
               None \<Rightarrow> s
             | Some tx \<Rightarrow>
                 (let payment = row\<lparr>confirmations := tx_confirmations tx\<rparr>
                  in if tx_confirmations tx \<ge> required_confirmations payment then
                       (case Order_get (payment_order payment) s of
                          None \<Rightarrow> s
                        | Some ord \<Rightarrow>
                            (let payment' = payment\<lparr>status := Confirmed, confirmed_at := Some now\<rparr>;
                                 s' = Payment_save now payment'
                                        (delay (SendPaymentConfirmationEmail (payment_id payment))
                                          (Order_save now
                                             (ord\<lparr>order_status := Paid, paid_at := Some now\<rparr>) s))
                             in if status payment' = Processing
                                then delay (MonitorTransactionConfirmations pid 60) s' else s'))
                     else
                       (let s' = Payment_save now payment s
                        in if status payment = Processing
                           then delay (MonitorTransactionConfirmations pid 60) s' else s'))))"

section \<open>The expiry sweep (apps/payments/tasks.py, check_expired_payments)\<close>

text \<open>
  The queryset \<open>filter(status='pending', expires_at__lt=now)\<close>; a NULL \<open>expires_at\<close>
  never satisfies the comparison.
\<close>

definition expired_payments :: "int \<Rightarrow> system \<Rightarrow> payment list" where
  "expired_payments now s =
     filter (\<lambda>p. status p = Pending \<and> (case expires_at p of None \<Rightarrow> False | Some t \<Rightarrow> t < now))
       (payments s)"

text \<open>The loop body, once per selected payment: mark, save, release the wallets.\<close>

fun expire_each :: "int \<Rightarrow> payment list \<Rightarrow> system \<Rightarrow> system" where
  "expire_each now [] s = s"
| "expire_each now (payment # rest) s =
     expire_each now rest
       (payment_wallets_update (payment_id payment) False
          (Payment_save now (payment\<lparr>status := Expired\<rparr>) s))"

definition check_expired_payments :: "int \<Rightarrow> system \<Rightarrow> system" where
  "check_expired_payments now s = expire_each now (expired_payments now s) s"

section \<open>Well-formed tables\<close>

text \<open>
  Primary keys are unique, and every payment's order exists (the foreign key of
  \<open>Payment.order\<close>).
\<close>

definition wf_system :: "system \<Rightarrow> bool" where
  "wf_system s =
     (distinct (map payment_id (payments s)) \<and> distinct (map order_id (orders s)) \<and>
      list_all (\<lambda>p. list_ex (\<lambda>ord. order_id ord = payment_order p) (orders s)) (payments s))"

section \<open>A running example\<close>

text \<open>
  Order 1 has a payment whose transaction \<open>tx1\<close> is being tracked, with two of three
  confirmations; order 2 has a payment that is still pending. Both payments expire at
  time 2800. The wallets are as \<open>initiate_payment\<close> creates them.
\<close>

definition example_payment :: payment where
  "example_payment =
     \<lparr>payment_id = 1, payment_order = 1, payment_user = 7, payment_method = crypto_btc,
      status = Pending, amount = 49, currency = ''EUR'', crypto_amount = Some (7 / 5000),
      crypto_currency = ''BTC'', wallet_address = ''addr1'', transaction_hash = [],
      confirmations = 0, required_confirmations = 3, external_id = [],
      created_at = 1000, updated_at = 1000, confirmed_at = None, expires_at = Some 2800\<rparr>"

definition tracked_payment :: payment where
  "tracked_payment =
     example_payment\<lparr>status := Processing, transaction_hash := ''tx1'', confirmations := 2\<rparr>"

definition pending_payment :: payment where
  "pending_payment =
     example_payment\<lparr>payment_id := 2, payment_order := 2, wallet_address := ''addr2''\<rparr>"

definition example_order :: order where
  "example_order =
     \<lparr>order_id = 1, order_user = 7, order_status = OrderPending, total = 49,
      order_updated_at = 900, paid_at = None\<rparr>"

definition example_wallet :: crypto_wallet where
  "example_wallet =
     \<lparr>wallet_id = 1, wallet_payment = 1, wallet_currency = ''BTC'', address = ''addr1'',
      private_key_encrypted = ''key1'', derivation_path = ''m/0'', is_used = False,
      wallet_created_at = 1000\<rparr>"

definition example_system :: system where
  "example_system =
     \<lparr>orders = [example_order, example_order\<lparr>order_id := 2\<rparr>],
      payments = [tracked_payment, pending_payment],
      wallets = [example_wallet,
                 example_wallet\<lparr>wallet_id := 2, wallet_payment := 2, address := ''addr2''\<rparr>],
      task_queue = []\<rparr>"

text \<open>A webhook payload for payment \<open>pid\<close> carrying hash \<open>h\<close> and \<open>n\<close> confirmations.\<close>

definition example_payload :: "nat \<Rightarrow> string \<Rightarrow> int \<Rightarrow> webhook_payload" where
  "example_payload pid h n =
     \<lparr>data_payment_id = pid, data_transaction_hash = h, data_confirmations = n,
      data_amount = 7 / 5000, data_from_address = ''sender''\<rparr>"

text \<open>
  A ledger that reports one confirmation for \<open>tx1\<close>, one that reports three, and the
  example with order 1 already shipped.
\<close>

definition example_check :: "processor \<Rightarrow> string \<Rightarrow> tx_info option" where
  "example_check proc h =
     (if proc = BitcoinPaymentProcessor \<and> h = ''tx1''
      then Some \<lparr>tx_confirmed = True, tx_confirmations = 1\<rparr> else None)"

definition shipped_system :: system where
  "shipped_system =
     example_system\<lparr>orders := [example_order\<lparr>order_status := Shipped, paid_at := Some 1500\<rparr>,
                               example_order\<lparr>order_id := 2\<rparr>]\<rparr>"

definition confirming_check :: "processor \<Rightarrow> string \<Rightarrow> tx_info option" where
  "confirming_check proc h =
     (if proc = BitcoinPaymentProcessor \<and> h = ''tx1''
      then Some \<lparr>tx_confirmed = True, tx_confirmations = 3\<rparr> else None)"

text \<open>
  A wallet generator, a request to pay order 2 in Bitcoin, the example before order 2
  had a payment, and the example with the payment of order 2 failed.
\<close>

definition example_generate_wallet :: "processor \<Rightarrow> wallet_data" where
  "example_generate_wallet proc =
     \<lparr>wd_address = ''addr3'', wd_private_key = ''key3'',
      wd_derivation_path = (case proc of BitcoinPaymentProcessor \<Rightarrow> Some ''m/1''
                                       | EthereumPaymentProcessor \<Rightarrow> None)\<rparr>"

definition example_initiate :: payment_initiate where
  "example_initiate = \<lparr>data_order_id = 2, data_payment_method = crypto_btc\<rparr>"

definition unpaid_system :: system where
  "unpaid_system = example_system\<lparr>payments := [tracked_payment], wallets := [example_wallet]\<rparr>"


section \<open>What the spec says about amounts\<close>

text \<open>
  Two definitions that follow the spec's words, to compare the code with. The amount to
  pay is \<open>crypto_amount = round(fiat_total / spot_price, currency_precision)\<close>, here
  with ties rounded to even; an incoming value is accepted if
  \<open>received >= expected_amount * (1 - tolerance)\<close>, with a tolerance of 1%.
\<close>

definition spec_crypto_amount :: "rat \<Rightarrow> rat \<Rightarrow> nat \<Rightarrow> rat" where
  "spec_crypto_amount fiat_total spot_price currency_precision =
     of_int (round_half_even (fiat_total / spot_price * 10 ^ currency_precision)) /
       10 ^ currency_precision"


section \<open>Unfolding the definitions on examples\<close>

lemmas example_defs = example_system_def example_payment_def tracked_payment_def
  pending_payment_def example_order_def example_wallet_def example_payload_def

lemmas run_defs = wf_system_def Payment_get_def Order_get_def Payment_save_def Order_save_def
  payment_wallets_update_def delay_def check_expired_payments_def expired_payments_def
  payment_webhook_def

section \<open>Rounding\<close>

lemma round_half_even_of_int [simp]: "round_half_even (of_int k) = k"
  by (simp add: round_half_even_def)

lemma round_half_even_error: "\<bar>of_int (round_half_even x) - x\<bar> \<le> 1 / 2"
proof -
  have "of_int \<lfloor>x\<rfloor> \<le> x" "x < of_int \<lfloor>x\<rfloor> + 1" by linarith+
  then show ?thesis
    by (auto simp: round_half_even_def Let_def)
qed

lemma round_half_even_unique:
  assumes "of_int k - 1 / 2 < x" and "x < of_int k + 1 / 2"
  shows "round_half_even x = k"
proof -
  have "k - 1 \<le> \<lfloor>x\<rfloor>" using assms(1) by (simp add: le_floor_iff)
  moreover have "\<lfloor>x\<rfloor> \<le> k" using assms(2) by (simp add: floor_le_iff)
  ultimately consider "\<lfloor>x\<rfloor> = k" | "\<lfloor>x\<rfloor> = k - 1" by linarith
  then show ?thesis
  proof cases
    case 1
    with assms(2) show ?thesis by (simp add: round_half_even_def Let_def)
  next
    case 2
    with assms(1) show ?thesis by (simp add: round_half_even_def Let_def)
  qed
qed

lemma adjusted_bounds:
  assumes "x \<noteq> 0"
  shows "10 powi adjusted x \<le> \<bar>x\<bar> \<and> \<bar>x\<bar> < 10 powi (adjusted x + 1)"
proof -
  obtain a b where q: "quotient_of \<bar>x\<bar> = (a, b)" by (cases "quotient_of \<bar>x\<bar>")
  then have b: "0 < b" and x: "\<bar>x\<bar> = of_int a / of_int b"
    by (simp_all add: quotient_of_denom_pos quotient_of_div)
  from assms have "0 < \<bar>x\<bar>" by simp
  with x b have a: "0 < a"
    by (simp add: zero_less_divide_iff)
  define la where "la = floorlog 10 (nat a)"
  define lb where "lb = floorlog 10 (nat b)"
  from floorlog_bounds [of "nat a" 10] a
  have la: "10 ^ (la - 1) \<le> nat a" "nat a < 10 ^ la" by (simp_all add: la_def)
  from floorlog_bounds [of "nat b" 10] b
  have lb: "10 ^ (lb - 1) \<le> nat b" "nat b < 10 ^ lb" by (simp_all add: lb_def)
  have la0: "0 < la" using a by (simp add: la_def floorlog_def)
  have lb0: "0 < lb" using b by (simp add: lb_def floorlog_def)
  have ra: "(10::rat) ^ (la - 1) \<le> of_int a" "(of_int a :: rat) < 10 ^ la"
  proof -
    from la(1) have "int (10 ^ (la - 1)) \<le> a" using a by linarith
    then have "(of_int (int (10 ^ (la - 1))) :: rat) \<le> of_int a" by (simp only: of_int_le_iff)
    then show "(10::rat) ^ (la - 1) \<le> of_int a" by simp
    from la(2) have "a < int (10 ^ la)" using a by linarith
    then have "(of_int a :: rat) < of_int (int (10 ^ la))" by (simp only: of_int_less_iff)
    then show "(of_int a :: rat) < 10 ^ la" by simp
  qed
  have rb: "(10::rat) ^ (lb - 1) \<le> of_int b" "(of_int b :: rat) < 10 ^ lb"
  proof -
    from lb(1) have "int (10 ^ (lb - 1)) \<le> b" using b by linarith
    then have "(of_int (int (10 ^ (lb - 1))) :: rat) \<le> of_int b" by (simp only: of_int_le_iff)
    then show "(10::rat) ^ (lb - 1) \<le> of_int b" by simp
    from lb(2) have "b < int (10 ^ lb)" using b by linarith
    then have "(of_int b :: rat) < of_int (int (10 ^ lb))" by (simp only: of_int_less_iff)
    then show "(of_int b :: rat) < 10 ^ lb" by simp
  qed
  define d where "d = int la - int lb"
  have bpos: "(0::rat) < of_int b" using b by simp
  have upper: "\<bar>x\<bar> < 10 powi (d + 1)"
  proof -
    have "(10::rat) powi (d + 1) * 10 ^ (lb - 1) = 10 powi (d + 1 + int (lb - 1))"
      by (simp add: power_int_add)
    also have "d + 1 + int (lb - 1) = int la" using lb0 by (simp add: d_def)
    finally have "(10::rat) powi (d + 1) * 10 ^ (lb - 1) = 10 ^ la" by simp
    moreover have "(10::rat) powi (d + 1) * 10 ^ (lb - 1) \<le> 10 powi (d + 1) * of_int b"
      using rb(1) by (simp add: mult_left_mono)
    ultimately have "of_int a < (10::rat) powi (d + 1) * of_int b" using ra(2) by linarith
    then show ?thesis using bpos by (simp add: x pos_divide_less_eq)
  qed
  have lower: "10 powi (d - 1) \<le> \<bar>x\<bar>"
  proof -
    have "(10::rat) powi (d - 1) * 10 ^ lb = 10 powi (d - 1 + int lb)"
      by (simp add: power_int_add)
    also have "d - 1 + int lb = int (la - 1)" using la0 by (simp add: d_def)
    finally have "(10::rat) powi (d - 1) * 10 ^ lb = 10 ^ (la - 1)" by simp
    moreover have "(10::rat) powi (d - 1) * of_int b \<le> 10 powi (d - 1) * 10 ^ lb"
      using rb(2) by (simp add: mult_left_mono)
    ultimately have "(10::rat) powi (d - 1) * of_int b \<le> of_int a" using ra(1) by linarith
    then show ?thesis using bpos by (simp add: x pos_le_divide_eq)
  qed
  have adj: "adjusted x = (if 10 powi d \<le> \<bar>x\<bar> then d else d - 1)"
    by (simp add: adjusted_def q la_def lb_def d_def)
  show ?thesis
  proof (cases "10 powi d \<le> \<bar>x\<bar>")
    case True
    with adj upper show ?thesis by simp
  next
    case False
    with adj lower show ?thesis by simp
  qed
qed

lemma power_int_10_less_cancel:
  "(10::rat) powi a < 10 powi b \<Longrightarrow> a < b"
  by (rule ccontr) (simp add: not_less power_int_increasing leD)

lemma context_round_exact:
  assumes "\<bar>m\<bar> < 10 ^ prec"
  shows "context_round (of_int m * 10 powi k) = of_int m * 10 powi k"
proof (cases "m = 0")
  case True
  then show ?thesis by (simp add: context_round_def)
next
  case False
  define x :: rat where "x = of_int m * 10 powi k"
  have x0: "x \<noteq> 0" using False by (simp add: x_def)
  define q where "q = adjusted x - int prec + 1"
  have "\<bar>x\<bar> = of_int \<bar>m\<bar> * 10 powi k"
    by (simp add: x_def abs_mult power_int_abs)
  also have "\<dots> < 10 ^ prec * 10 powi k"
  proof -
    have "(of_int \<bar>m\<bar> :: rat) < of_int (10 ^ prec)" using assms by (simp only: of_int_less_iff)
    then show ?thesis by (simp add: mult_strict_right_mono)
  qed
  also have "\<dots> = 10 powi (int prec + k)" by (simp add: power_int_add)
  finally have "10 powi adjusted x < (10::rat) powi (int prec + k)"
    using adjusted_bounds [OF x0] by linarith
  then have "adjusted x < int prec + k" by (rule power_int_10_less_cancel)
  then have qk: "q \<le> k" by (simp add: q_def)
  have "x / 10 powi q = of_int m * 10 powi (k - q)"
    by (simp add: x_def power_int_diff)
  also have "\<dots> = of_int (m * 10 ^ nat (k - q))"
    using qk by (simp add: power_int_nonneg_exp)
  finally have "round_half_even (x / 10 powi q) = m * 10 ^ nat (k - q)"
    by (simp only: round_half_even_of_int)
  then have "context_round x = of_int (m * 10 ^ nat (k - q)) * 10 powi q"
    using x0 by (simp add: context_round_def q_def Let_def)
  also have "\<dots> = of_int m * (10 powi (k - q) * 10 powi q)"
    using qk by (simp add: power_int_nonneg_exp)
  also have "10 powi (k - q) * (10::rat) powi q = 10 powi k"
    by (simp flip: power_int_add)
  finally show ?thesis by (simp add: x_def)
qed

lemma context_round_error:
  "\<bar>context_round x - x\<bar> \<le> 1 / 2 * 10 powi (adjusted x - int prec + 1)"
proof (cases "x = 0")
  case True
  then show ?thesis by (simp add: context_round_def)
next
  case False
  define s :: rat where "s = 10 powi (adjusted x - int prec + 1)"
  have s: "0 < s" by (simp add: s_def)
  have "context_round x - x = (of_int (round_half_even (x / s)) - x / s) * s"
    using False s by (simp add: context_round_def Let_def s_def algebra_simps)
  then have "\<bar>context_round x - x\<bar> = \<bar>of_int (round_half_even (x / s)) - x / s\<bar> * s"
    using s by (simp add: abs_mult)
  also have "\<dots> \<le> 1 / 2 * s"
    using round_half_even_error [of "x / s"] s by (simp add: mult_right_mono)
  finally show ?thesis by (simp add: s_def)
qed

lemma quantize_context_round:
  assumes M: "0 < M" and N: "\<bar>N\<bar> * 10 ^ places < 10 ^ (prec - 1)"
  shows "quantize (context_round (of_int N / of_int M)) places =
         Inr (of_int (round_half_even (of_int N / of_int M * 10 ^ places)) / 10 ^ places)"
proof -
  define P :: rat where "P = 10 ^ places"
  define x :: rat where "x = of_int N / of_int M"
  define y where "y = x * P"
  define k where "k = round_half_even y"
  have P0: "0 < P" by (simp add: P_def)
  have Mr: "(1::rat) \<le> of_int M" "(0::rat) < of_int M" using M by simp_all
  have NP: "of_int \<bar>N\<bar> * P < 10 ^ (prec - 1)"
  proof -
    have "(of_int (\<bar>N\<bar> * 10 ^ places) :: rat) < of_int (10 ^ (prec - 1))"
      using N by (simp only: of_int_less_iff)
    then show ?thesis by (simp add: P_def)
  qed
  have yabs: "\<bar>y\<bar> = of_int \<bar>N\<bar> * P / of_int M"
    using P0 Mr by (simp add: y_def x_def abs_mult)
  have "of_int \<bar>N\<bar> * P * 1 \<le> of_int \<bar>N\<bar> * P * (of_int M :: rat)"
    using Mr P0 by (intro mult_left_mono) simp_all
  then have "of_int \<bar>N\<bar> * P / of_int M \<le> of_int \<bar>N\<bar> * P"
    using Mr by (simp add: pos_divide_le_eq)
  with yabs NP have ybound: "\<bar>y\<bar> < 10 ^ (prec - 1)" by linarith
  have kbound: "\<bar>k\<bar> < 10 ^ prec"
  proof -
    have "\<bar>of_int k - y\<bar> \<le> 1 / 2" unfolding k_def by (rule round_half_even_error)
    with ybound have "\<bar>(of_int k :: rat)\<bar> < 10 ^ (prec - 1) + 1" by linarith
    also have "\<dots> \<le> 10 ^ prec" by (simp add: prec_def)
    finally have "(of_int \<bar>k\<bar> :: rat) < of_int (10 ^ prec)" by simp
    then show ?thesis by (simp only: of_int_less_iff)
  qed
  have key: "round_half_even (context_round x * P) = k"
  proof (cases "M dvd 2 * N * 10 ^ places")
    case True
    then obtain j where j: "2 * N * 10 ^ places = M * j" by (auto simp: dvd_def)
    then have "(of_int (2 * N * 10 ^ places) :: rat) = of_int (M * j)" by simp
    then have jr: "2 * of_int N * P = of_int M * (of_int j :: rat)" by (simp add: P_def)
    have pw: "(10::rat) powi (- int (Suc places)) = 1 / (10 * 10 ^ places)"
      using power_int_minus_divide [of "10::rat" "int (Suc places)"]
      by (simp only: power_int_of_nat power_Suc)
    have "x = of_int j / (2 * P)"
      using jr Mr P0 by (simp add: x_def field_simps)
    then have xj: "x = of_int (5 * j) * 10 powi (- int (Suc places))"
      unfolding pw by (simp add: P_def)
    have "\<bar>2 * of_int N * P\<bar> = \<bar>of_int M * (of_int j :: rat)\<bar>"
      using jr by simp
    then have "2 * (of_int \<bar>N\<bar> * P) = of_int M * \<bar>of_int j :: rat\<bar>"
      using Mr P0 by (simp add: abs_mult)
    then have "\<bar>of_int j :: rat\<bar> = 2 * \<bar>y\<bar>"
      using Mr unfolding yabs by (simp add: field_simps)
    with ybound have "\<bar>of_int (5 * j) :: rat\<bar> < 10 * 10 ^ (prec - 1)" by simp
    also have "(10 :: rat) * 10 ^ (prec - 1) = of_int (10 ^ prec)" by (simp add: prec_def)
    finally have "(of_int \<bar>5 * j\<bar> :: rat) < of_int (10 ^ prec)" by simp
    then have "\<bar>5 * j\<bar> < 10 ^ prec" by (simp only: of_int_less_iff)
    from context_round_exact [OF this] have "context_round x = x" by (simp add: xj)
    then show ?thesis by (simp add: k_def y_def)
  next
    case False
    then have N0: "N \<noteq> 0" by auto
    then have x0: "x \<noteq> 0" using M by (simp add: x_def)
    define e where "e = adjusted x"
    define y' where "y' = context_round x * P"
    have far: "1 \<le> \<bar>2 * y - of_int j\<bar> * of_int M" for j
    proof -
      have "2 * N * 10 ^ places - j * M \<noteq> 0" using False by (auto simp: dvd_def mult.commute)
      then have "1 \<le> \<bar>2 * N * 10 ^ places - j * M\<bar>" by linarith
      then have "(of_int 1 :: rat) \<le> of_int \<bar>2 * N * 10 ^ places - j * M\<bar>"
        by (simp only: of_int_le_iff)
      also have "\<dots> = \<bar>2 * of_int N * P - of_int j * of_int M\<bar>" by (simp add: P_def)
      also have "2 * of_int N * P - of_int j * of_int M = (2 * y - of_int j) * of_int M"
        using Mr by (simp add: y_def x_def field_simps)
      finally show ?thesis using Mr by (simp add: abs_mult)
    qed
    have close: "\<bar>y' - y\<bar> * (2 * of_int M) < 1"
    proof -
      have "\<bar>context_round x - x\<bar> \<le> 1 / 2 * 10 powi (e - int prec + 1)"
        unfolding e_def by (rule context_round_error)
      then have "\<bar>context_round x - x\<bar> * P \<le> 1 / 2 * 10 powi (e - int prec + 1) * P"
        using P0 by (simp add: mult_right_mono)
      moreover have "\<bar>y' - y\<bar> = \<bar>context_round x - x\<bar> * P"
        using P0 by (simp add: y'_def y_def abs_mult flip: left_diff_distrib)
      ultimately have "\<bar>y' - y\<bar> * 2 \<le> 10 powi (e - int prec + 1) * P"
        by simp
      then have "\<bar>y' - y\<bar> * 2 * of_int M \<le> 10 powi (e - int prec + 1) * P * of_int M"
        using Mr by (intro mult_right_mono) simp_all
      then have "\<bar>y' - y\<bar> * (2 * of_int M) \<le> 10 powi (e - int prec + 1) * P * of_int M"
        by (simp add: mult.assoc)
      also have "10 powi (e - int prec + 1) * P * of_int M = 10 powi e * of_int M * P / 10 ^ (prec - 1)"
        by (simp add: power_int_diff power_int_add prec_def)
      also have "\<dots> \<le> of_int \<bar>N\<bar> * P / 10 ^ (prec - 1)"
      proof -
        have "10 powi e \<le> \<bar>x\<bar>" using adjusted_bounds [OF x0] by (simp add: e_def)
        also have "\<bar>x\<bar> = of_int \<bar>N\<bar> / of_int M" using Mr by (simp add: x_def)
        finally have "10 powi e * of_int M \<le> (of_int \<bar>N\<bar> :: rat)"
          using Mr by (simp add: pos_le_divide_eq)
        then show ?thesis using P0 by (simp add: divide_right_mono mult_right_mono)
      qed
      also have "\<dots> < 1" using NP by simp
      finally show ?thesis .
    qed
    have kerr: "\<bar>of_int k - y\<bar> \<le> 1 / 2" unfolding k_def by (rule round_half_even_error)
    have up: "y' < of_int k + 1 / 2"
    proof -
      from far [of "2 * k + 1"] have "1 \<le> \<bar>2 * y - (2 * of_int k + 1)\<bar> * of_int M" by simp
      moreover have "2 * y - (2 * of_int k + 1) \<le> 0" using kerr by linarith
      ultimately have "1 \<le> (2 * of_int k + 1 - 2 * y) * of_int M" by (simp add: abs_if split: if_splits)
      moreover have "(y' - y) * (2 * of_int M) \<le> \<bar>y' - y\<bar> * (2 * of_int M)"
        using Mr by (intro mult_right_mono) simp_all
      then have "(y' - y) * (2 * of_int M) < 1"
        using close by linarith
      ultimately have "(y' - y) * (2 * of_int M) < (2 * of_int k + 1 - 2 * y) * of_int M" by linarith
      then have "(2 * y' - (2 * of_int k + 1)) * of_int M < 0" by (simp add: algebra_simps)
      then have "2 * y' - (2 * of_int k + 1) < 0" using Mr by (simp add: mult_less_0_iff)
      then show ?thesis by linarith
    qed
    have low: "of_int k - 1 / 2 < y'"
    proof -
      from far [of "2 * k - 1"] have "1 \<le> \<bar>2 * y - (2 * of_int k - 1)\<bar> * of_int M" by simp
      moreover have "0 \<le> 2 * y - (2 * of_int k - 1)" using kerr by linarith
      ultimately have "1 \<le> (2 * y - (2 * of_int k - 1)) * of_int M" by (simp add: abs_if split: if_splits)
      moreover have "(y - y') * (2 * of_int M) \<le> \<bar>y' - y\<bar> * (2 * of_int M)"
        using Mr by (intro mult_right_mono) simp_all
      then have "(y - y') * (2 * of_int M) < 1"
        using close by linarith
      ultimately have "(y - y') * (2 * of_int M) < (2 * y - (2 * of_int k - 1)) * of_int M" by linarith
      then have "((2 * of_int k - 1) - 2 * y') * of_int M < 0" by (simp add: algebra_simps)
      then have "(2 * of_int k - 1) - 2 * y' < 0" using Mr by (simp add: mult_less_0_iff)
      then show ?thesis by linarith
    qed
    from round_half_even_unique [OF low up] show ?thesis by (simp add: y'_def)
  qed
  have "quantize (context_round x) places = Inr (of_int k / 10 ^ places)"
    using key kbound by (simp add: quantize_def Let_def P_def)
  then show ?thesis by (simp add: x_def k_def y_def P_def)
qed

section \<open>The sweep in closed form\<close>

lemma expire_each_orders: "orders (expire_each now ps s) = orders s"
  by (induction ps arbitrary: s) (simp_all add: payment_wallets_update_def Payment_save_def)

lemma expire_each_wallets:
  "wallets (expire_each now ps s) =
     map (\<lambda>w. if wallet_payment w \<in> payment_id ` set ps then w\<lparr>is_used := False\<rparr> else w)
       (wallets s)"
proof (induction ps arbitrary: s)
  case Nil
  then show ?case by simp
next
  case (Cons p ps)
  show ?case
    by (auto simp: Cons.IH payment_wallets_update_def Payment_save_def)
qed

lemma filter_map_unchanged:
  "(\<And>x. x \<in> set xs \<Longrightarrow> P (f x) = P x) \<Longrightarrow> (\<And>x. x \<in> set xs \<Longrightarrow> P x \<Longrightarrow> f x = x) \<Longrightarrow>
   filter P (map f xs) = filter P xs"
  by (induction xs) auto

lemma Payment_save_other:
  "payment_id p \<noteq> pid \<Longrightarrow>
   filter (\<lambda>r. payment_id r = pid) (payments (Payment_save now p s)) =
   filter (\<lambda>r. payment_id r = pid) (payments s)"
  unfolding Payment_save_def by (simp add: filter_map_unchanged)

lemma expire_each_payments_other:
  "pid \<notin> payment_id ` set ps \<Longrightarrow>
   filter (\<lambda>r. payment_id r = pid) (payments (expire_each now ps s)) =
   filter (\<lambda>r. payment_id r = pid) (payments s)"
proof (induction ps arbitrary: s)
  case Nil
  then show ?case by simp
next
  case (Cons p ps)
  then show ?case
    by (simp add: payment_wallets_update_def Payment_save_other)
qed




lemma find_eq_filter:
  "find P xs = (case filter P xs of [] \<Rightarrow> None | x # _ \<Rightarrow> Some x)"
  by (induction xs) auto

lemma Payment_get_id: "Payment_get pid s = Some p \<Longrightarrow> payment_id p = pid"
  by (auto simp: Payment_get_def find_Some_iff)

lemma Payment_get_mem: "Payment_get pid s = Some p \<Longrightarrow> p \<in> set (payments s)"
  by (auto simp: Payment_get_def find_Some_iff)


section \<open>Lookups and saves\<close>

lemma payments_delay [simp]: "payments (delay t s) = payments s"
  and orders_delay [simp]: "orders (delay t s) = orders s"
  and wallets_delay [simp]: "wallets (delay t s) = wallets s"
  by (simp_all add: delay_def)

lemma orders_Payment_save [simp]: "orders (Payment_save now p s) = orders s"
  and wallets_Payment_save [simp]: "wallets (Payment_save now p s) = wallets s"
  and task_queue_Payment_save [simp]: "task_queue (Payment_save now p s) = task_queue s"
  by (simp_all add: Payment_save_def)

lemma payments_Order_save [simp]: "payments (Order_save now ord s) = payments s"
  and wallets_Order_save [simp]: "wallets (Order_save now ord s) = wallets s"
  and task_queue_Order_save [simp]: "task_queue (Order_save now ord s) = task_queue s"
  by (simp_all add: Order_save_def)

lemma find_map_replace:
  "find (\<lambda>r. f r = k) xs = Some row \<Longrightarrow> f v = k \<Longrightarrow>
   find (\<lambda>r. f r = k) (map (\<lambda>r. if f r = k then v else r) xs) = Some v"
  by (induction xs) (auto split: if_splits)

lemma Payment_get_Payment_save:
  "Payment_get pid s = Some row \<Longrightarrow> payment_id p = pid \<Longrightarrow>
   Payment_get pid (Payment_save now p s) = Some (p\<lparr>updated_at := now\<rparr>)"
  unfolding Payment_get_def Payment_save_def
  using find_map_replace [of payment_id pid "payments s" row "p\<lparr>updated_at := now\<rparr>"]
  by simp

lemma Order_get_Order_save:
  "Order_get oid s = Some row \<Longrightarrow> order_id ord = oid \<Longrightarrow>
   Order_get oid (Order_save now ord s) = Some (ord\<lparr>order_updated_at := now\<rparr>)"
  unfolding Order_get_def Order_save_def
  using find_map_replace [of order_id oid "orders s" row "ord\<lparr>order_updated_at := now\<rparr>"]
  by simp

lemma Order_get_id: "Order_get oid s = Some ord \<Longrightarrow> order_id ord = oid"
  by (auto simp: Order_get_def find_Some_iff)


text \<open>The webhook on a payment it finds, whose order exists.\<close>

lemma payment_webhook_found:
  assumes "Payment_get (data_payment_id d) s = Some p"
    and "Order_get (payment_order p) s = Some ord"
  shows "payment_webhook now prov d s =
    (Response (),
     if data_confirmations d \<ge> required_confirmations p then
       Payment_save now
         (p\<lparr>transaction_hash := data_transaction_hash d, confirmations := data_confirmations d,
            status := Confirmed, confirmed_at := Some now\<rparr>)
         (delay (SendPaymentConfirmationEmail (payment_id p))
            (Order_save now (ord\<lparr>order_status := Paid, paid_at := Some now\<rparr>) s))
     else
       Payment_save now
         (p\<lparr>transaction_hash := data_transaction_hash d, confirmations := data_confirmations d\<rparr>) s)"
  using assms by (simp add: payment_webhook_def Let_def)

lemma payment_webhook_stored:
  assumes "Payment_get (data_payment_id d) s = Some p"
    and "Order_get (payment_order p) s = Some ord"
  shows "Payment_get (data_payment_id d) (snd (payment_webhook now prov d s)) =
    Some (if data_confirmations d \<ge> required_confirmations p then
            p\<lparr>transaction_hash := data_transaction_hash d, confirmations := data_confirmations d,
              status := Confirmed, confirmed_at := Some now, updated_at := now\<rparr>
          else
            p\<lparr>transaction_hash := data_transaction_hash d, confirmations := data_confirmations d,
              updated_at := now\<rparr>)"
proof -
  note id = Payment_get_id [OF assms(1)]
  show ?thesis
  proof (cases "data_confirmations d \<ge> required_confirmations p")
    case True
    have "Payment_get (data_payment_id d)
            (delay (SendPaymentConfirmationEmail (payment_id p))
              (Order_save now (ord\<lparr>order_status := Paid, paid_at := Some now\<rparr>) s)) = Some p"
      using assms(1) by (simp add: Payment_get_def)
    from Payment_get_Payment_save [OF this, of _ now] True id show ?thesis
      by (simp add: payment_webhook_found [OF assms])
  next
    case False
    from Payment_get_Payment_save [OF assms(1), of _ now] False id show ?thesis
      by (simp add: payment_webhook_found [OF assms])
  qed
qed

section \<open>The webhook and the tasks on a payment they find\<close>

lemma payment_ids_Payment_save [simp]:
  "map payment_id (payments (Payment_save now p s)) = map payment_id (payments s)"
  by (simp add: Payment_save_def o_def cong: map_cong)

lemma payment_webhook_below:
  assumes "Payment_get (data_payment_id d) s = Some p"
    and "data_confirmations d < required_confirmations p"
  shows "payment_webhook now prov d s =
    (Response (),
     Payment_save now
       (p\<lparr>transaction_hash := data_transaction_hash d, confirmations := data_confirmations d\<rparr>) s)"
  using assms by (simp add: payment_webhook_def Let_def)

lemma monitor_transaction_confirmations_found:
  assumes "Payment_get pid s = Some p"
    and "status p = Processing" and "transaction_hash p \<noteq> []"
    and "check (select_processor (crypto_currency p)) (transaction_hash p) = Some tx"
    and "Order_get (payment_order p) s = Some ord"
  shows "monitor_transaction_confirmations now check pid s =
    (if tx_confirmations tx \<ge> required_confirmations p then
       Payment_save now
         (p\<lparr>confirmations := tx_confirmations tx, status := Confirmed, confirmed_at := Some now\<rparr>)
         (delay (SendPaymentConfirmationEmail (payment_id p))
            (Order_save now (ord\<lparr>order_status := Paid, paid_at := Some now\<rparr>) s))
     else
       delay (MonitorTransactionConfirmations pid 60)
         (Payment_save now (p\<lparr>confirmations := tx_confirmations tx\<rparr>) s))"
  using assms by (simp add: monitor_transaction_confirmations_def Let_def)


lemma wallets_payment_webhook: "wallets (snd (payment_webhook now prov d s)) = wallets s"
  by (simp add: payment_webhook_def Let_def split: option.split)

lemma wallets_monitor_transaction_confirmations:
  "wallets (monitor_transaction_confirmations now check pid s) = wallets s"
  by (simp add: monitor_transaction_confirmations_def Let_def split: option.split)

lemma wallets_monitor_crypto_payment:
  "wallets (monitor_crypto_payment now l pid s) = wallets s"
  by (simp add: monitor_crypto_payment_def split: option.split outcome.split)

lemma map_replace_twice:
  "f v = k \<Longrightarrow>
   map (\<lambda>r. if f r = k then w else r) (map (\<lambda>r. if f r = k then v else r) xs) =
   map (\<lambda>r. if f r = k then w else r) xs"
  by (induction xs) auto

lemma Order_get_after_mark_paid:
  assumes "Order_get oid s = Some ord"
  shows "Order_get oid
      (Payment_save now q
         (delay t (Order_save now (ord\<lparr>order_status := Paid, paid_at := Some now\<rparr>) s))) =
      Some (ord\<lparr>order_status := Paid, paid_at := Some now, order_updated_at := now\<rparr>)"
proof -
  have "Order_get oid (Order_save now (ord\<lparr>order_status := Paid, paid_at := Some now\<rparr>) s) =
        Some (ord\<lparr>order_status := Paid, paid_at := Some now\<rparr>\<lparr>order_updated_at := now\<rparr>)"
    by (rule Order_get_Order_save [OF assms]) (simp add: Order_get_id [OF assms])
  then show ?thesis by (simp add: Order_get_def)
qed

lemma Payment_save_twice:
  assumes "payments s1 = payments (Payment_save now1 p s)"
    and "payment_id q = payment_id p" and "payment_id r = payment_id p"
    and "q\<lparr>updated_at := now2\<rparr> = r\<lparr>updated_at := now2\<rparr>"
  shows "payments (Payment_save now2 q s1) = payments (Payment_save now2 r s)"
  using map_replace_twice [of payment_id "p\<lparr>updated_at := now1\<rparr>" "payment_id p"
      "r\<lparr>updated_at := now2\<rparr>" "payments s"]
  by (simp add: Payment_save_def assms)

lemma Order_save_twice:
  assumes "orders s1 = orders (Order_save now1 ord s)"
    and "order_id q = order_id ord" and "order_id r = order_id ord"
    and "q\<lparr>order_updated_at := now2\<rparr> = r\<lparr>order_updated_at := now2\<rparr>"
  shows "orders (Order_save now2 q s1) = orders (Order_save now2 r s)"
  using map_replace_twice [of order_id "ord\<lparr>order_updated_at := now1\<rparr>" "order_id ord"
      "r\<lparr>order_updated_at := now2\<rparr>" "orders s"]
  by (simp add: Order_save_def assms)

section \<open>Amounts\<close>

lemma calculate_crypto_amount_at_rounded:
  assumes "0 < m" and "\<bar>n\<bar> * 10 ^ places < 10 ^ (prec - 1)"
  shows "calculate_crypto_amount_at (of_int m / 100) places (of_int n / 100) =
         Inr (spec_crypto_amount (of_int n / 100) (of_int m / 100) places)"
proof -
  have m: "(of_int m :: rat) \<noteq> 0" using assms(1) by simp
  have q: "(of_int n / 100 :: rat) / (of_int m / 100) = of_int n / of_int m"
    using m by simp
  have "decimal_div (of_int n / 100) (of_int m / 100) = Inr (context_round (of_int n / of_int m))"
    using m by (simp add: decimal_div_def)
  then show ?thesis
    unfolding calculate_crypto_amount_at_def spec_crypto_amount_def q
    by (simp add: quantize_context_round [OF assms])
qed

lemma calculate_crypto_amount_rounded:
  assumes "\<bar>n\<bar> < 10 ^ 10"
  shows "calculate_crypto_amount BitcoinPaymentProcessor (of_int n / 100) =
           Inr (spec_crypto_amount (of_int n / 100) get_btc_price 8)"
    and "calculate_crypto_amount EthereumPaymentProcessor (of_int n / 100) =
           Inr (spec_crypto_amount (of_int n / 100) get_eth_price 6)"
proof -
  have b8: "\<bar>n\<bar> * 10 ^ 8 < 10 ^ (prec - 1)" and b6: "\<bar>n\<bar> * 10 ^ 6 < 10 ^ (prec - 1)"
    using assms by (simp_all add: prec_def)
  have btc: "get_btc_price = of_int 3500000 / 100" and eth: "get_eth_price = of_int 250000 / 100"
    by (simp_all add: get_btc_price_def get_eth_price_def)
  show "calculate_crypto_amount BitcoinPaymentProcessor (of_int n / 100) =
           Inr (spec_crypto_amount (of_int n / 100) get_btc_price 8)"
    unfolding calculate_crypto_amount_def btc
    using calculate_crypto_amount_at_rounded [of 3500000 n 8, OF _ b8] by simp
  show "calculate_crypto_amount EthereumPaymentProcessor (of_int n / 100) =
           Inr (spec_crypto_amount (of_int n / 100) get_eth_price 6)"
    unfolding calculate_crypto_amount_def eth
    using calculate_crypto_amount_at_rounded [of 250000 n 6, OF _ b6] by simp
qed

lemma calculate_crypto_amount_49:
  "calculate_crypto_amount BitcoinPaymentProcessor 49 = Inr (7 / 5000)"
proof -
  have "calculate_crypto_amount BitcoinPaymentProcessor (of_int 4900 / 100) =
           Inr (spec_crypto_amount (of_int 4900 / 100) get_btc_price 8)"
    by (rule calculate_crypto_amount_rounded) simp
  then show ?thesis
    by (simp add: spec_crypto_amount_def get_btc_price_def round_half_even_def)
qed

lemma initiate_payment_Response:
  assumes "initiate_payment now gen auth data s = (Response r, s')"
    and "find (\<lambda>row. order_id row = data_order_id data \<and> order_user row = auth) (orders s) = Some ord"
  shows "resp_amount_eur r = total ord \<and>
         calculate_crypto_amount
           (if data_payment_method data = crypto_btc then BitcoinPaymentProcessor
            else EthereumPaymentProcessor) (total ord) = Inr (resp_crypto_amount r) \<and>
         map_option (\<lambda>p. (status p, crypto_amount p)) (Payment_get (resp_payment_id r) s') =
           Some (Pending, Some (resp_crypto_amount r))"
  using assms
  by (auto simp: initiate_payment_def Payment_create_def CryptoWallet_create_def Let_def
      Payment_get_def delay_def
      split: option.splits sum.splits if_splits prod.splits)

lemma initiate_example:
  "initiate_payment 3000 example_generate_wallet 7 example_initiate unpaid_system =
     (Response \<lparr>resp_payment_id = 2, resp_amount_eur = 49, resp_crypto_amount = 7 / 5000,
                 resp_crypto_currency = ''BTC'', resp_wallet_address = ''addr3'',
                 resp_expires_at = Some 1800003000\<rparr>,
      unpaid_system
        \<lparr>payments :=
           [pending_payment\<lparr>wallet_address := ''addr3'', created_at := 3000, updated_at := 3000,
                            expires_at := Some 1800003000\<rparr>, tracked_payment],
         wallets :=
           [example_wallet,
            \<lparr>wallet_id = 2, wallet_payment = 2, wallet_currency = ''BTC'', address = ''addr3'',
             private_key_encrypted = ''key3'', derivation_path = ''m/1'', is_used = False,
             wallet_created_at = 3000\<rparr>],
         task_queue := [MonitorCryptoPayment 2 0]\<rparr>)"
  by (simp add: initiate_payment_def calculate_crypto_amount_49 Payment_create_def
      CryptoWallet_create_def next_id_def timedelta_minutes_def delay_def Let_def
      unpaid_system_def example_initiate_def example_generate_wallet_def example_defs)






section \<open>Initiating a payment for an order that has one\<close>

lemma fst_case_sum_neq:
  "(\<And>e. fst (f e) \<noteq> r) \<Longrightarrow> (\<And>a. fst (g a) \<noteq> r) \<Longrightarrow> fst (case x of Inl e \<Rightarrow> f e | Inr a \<Rightarrow> g a) \<noteq> r"
  by (cases x) simp_all

lemma initiate_payment_duplicate_iff:
  "fst (initiate_payment now gen auth data s) =
     ErrorResponse 400 ''Esta orden ya tiene un pago asociado'' \<longleftrightarrow>
   (\<exists>ord p.
      find (\<lambda>row. order_id row = data_order_id data \<and> order_user row = auth) (orders s) = Some ord \<and>
      find (\<lambda>row. payment_order row = order_id ord) (payments s) = Some p \<and> status p \<noteq> Failed)"
proof (cases "find (\<lambda>row. order_id row = data_order_id data \<and> order_user row = auth) (orders s)")
  case None
  then show ?thesis by (simp add: initiate_payment_def)
next
  case (Some ord)
  show ?thesis
  proof (cases "case find (\<lambda>row. payment_order row = order_id ord) (payments s) of
                  None \<Rightarrow> False | Some p \<Rightarrow> status p \<noteq> Failed")
    case True
    with Some show ?thesis
      by (simp add: initiate_payment_def split: option.splits)
  next
    case False
    have "fst (initiate_payment now gen auth data s) \<noteq>
        ErrorResponse 400 ''Esta orden ya tiene un pago asociado''"
      unfolding initiate_payment_def Some option.case Let_def
      using False
      by (cases "data_payment_method data")
         (simp_all add: fst_case_sum_neq split: prod.split)
    with Some False show ?thesis
      by (auto split: option.splits)
  qed
qed

lemma initiate_payment_after_failed_payment:
  assumes "find (\<lambda>row. order_id row = data_order_id data \<and> order_user row = auth) (orders s) = Some ord"
    and "find (\<lambda>row. payment_order row = order_id ord) (payments s) = Some p"
    and "status p = Failed"
    and "data_payment_method data \<in> {crypto_btc, crypto_eth, crypto_usdt}"
  shows "\<exists>e. initiate_payment now gen auth data s = (ServerError e, s)"
proof -
  from assms(2) have "find (\<lambda>row. payment_order row = order_id ord) (payments s) \<noteq> None"
    by simp
  then have "list_ex (\<lambda>row. payment_order row = order_id ord) (payments s)"
    by (auto simp: find_None_iff list_ex_iff)
  with assms show ?thesis
    by (auto simp: initiate_payment_def Payment_create_def Let_def split: sum.splits)
qed

section \<open>The claims\<close>

text \<open>
  C4. A payment in status processing is not touched by the expiry sweep, whatever its
  \<open>expires_at\<close>: the sweep leaves the payment row, every order and the wallets of the
  payment as they were.
\<close>

theorem expiry_sweep_skips_processing:
  assumes "wf_system s" and "Payment_get pid s = Some p" and "status p = Processing"
  shows "Payment_get pid (check_expired_payments now s) = Some p \<and>
         orders (check_expired_payments now s) = orders s \<and>
         filter (\<lambda>w. wallet_payment w = pid) (wallets (check_expired_payments now s)) =
           filter (\<lambda>w. wallet_payment w = pid) (wallets s)"
proof -
  from assms(1) have d: "distinct (map payment_id (payments s))"
    by (simp add: wf_system_def)
  have id: "payment_id p = pid" and mem: "p \<in> set (payments s)"
    using assms(2) by (rule Payment_get_id, rule Payment_get_mem)
  have notsel: "pid \<notin> payment_id ` set (expired_payments now s)"
  proof
    assume "pid \<in> payment_id ` set (expired_payments now s)"
    then obtain q where q: "q \<in> set (payments s)" "status q = Pending" "payment_id q = pid"
      by (auto simp: expired_payments_def)
    with d mem id have "q = p"
      by (auto simp: distinct_map inj_on_def)
    with q assms(3) show False by simp
  qed
  have "filter (\<lambda>r. payment_id r = pid) (payments (check_expired_payments now s)) =
        filter (\<lambda>r. payment_id r = pid) (payments s)"
    unfolding check_expired_payments_def by (rule expire_each_payments_other [OF notsel])
  then have "Payment_get pid (check_expired_payments now s) = Payment_get pid s"
    by (simp add: Payment_get_def find_eq_filter)
  moreover have "orders (check_expired_payments now s) = orders s"
    by (simp add: check_expired_payments_def expire_each_orders)
  moreover have "filter (\<lambda>w. wallet_payment w = pid) (wallets (check_expired_payments now s)) =
           filter (\<lambda>w. wallet_payment w = pid) (wallets s)"
    unfolding check_expired_payments_def expire_each_wallets
    using notsel by (simp add: filter_map_unchanged)
  ultimately show ?thesis using assms(2) by simp
qed

theorem expiry_sweep_skips_processing_witness:
  "wf_system example_system \<and>
   Payment_get 1 example_system =
     Some tracked_payment \<and>
   Payment_get 1 (check_expired_payments 5000 example_system) =
     Some tracked_payment \<and>
   orders (check_expired_payments 5000 example_system) = orders example_system \<and>
   filter (\<lambda>w. wallet_payment w = 1) (wallets (check_expired_payments 5000 example_system)) =
     filter (\<lambda>w. wallet_payment w = 1) (wallets example_system) \<and>
   map status (payments (check_expired_payments 5000 example_system)) = [Processing, Expired]"
proof -
  have wf: "wf_system example_system"
    by (simp add: run_defs example_defs)
  have get: "Payment_get 1 example_system =
      Some tracked_payment"
    by (simp add: run_defs example_defs)
  have st: "status tracked_payment = Processing"
    by (simp add: tracked_payment_def)
  have sw: "map status (payments (check_expired_payments 5000 example_system)) = [Processing, Expired]"
    by (simp add: run_defs example_defs)
  from expiry_sweep_skips_processing [OF wf get st, of 5000] wf get sw show ?thesis
    by simp
qed









text \<open>
  C3, as the code has it. The sweep sets \<open>is_used\<close> to false on every wallet of every
  payment it selects, and it selects by status and expiry alone, whether or not a
  transaction hash is recorded; the webhook and the two monitoring tasks, which record
  transactions, leave every wallet as it is.
\<close>

theorem expiry_sweep_releases_every_wallet:
  "wallets (check_expired_payments now s) =
     map (\<lambda>w. if wallet_payment w \<in> payment_id ` set (expired_payments now s)
              then w\<lparr>is_used := False\<rparr> else w) (wallets s) \<and>
   (p \<in> set (expired_payments now s) \<longleftrightarrow>
      p \<in> set (payments s) \<and> status p = Pending \<and> (\<exists>t. expires_at p = Some t \<and> t < now)) \<and>
   wallets (snd (payment_webhook now prov d s)) = wallets s \<and>
   wallets (monitor_transaction_confirmations now check pid s) = wallets s \<and>
   wallets (monitor_crypto_payment now l pid s) = wallets s"
proof -
  have "p \<in> set (expired_payments now s) \<longleftrightarrow>
      p \<in> set (payments s) \<and> status p = Pending \<and> (\<exists>t. expires_at p = Some t \<and> t < now)"
    by (auto simp: expired_payments_def split: option.splits)
  then show ?thesis
    by (simp add: check_expired_payments_def expire_each_wallets wallets_payment_webhook
        wallets_monitor_transaction_confirmations wallets_monitor_crypto_payment)
qed

theorem expiry_sweep_releases_every_wallet_witness:
  "map is_used
     (wallets (check_expired_payments 5000
        (example_system\<lparr>wallets := map (\<lambda>w. w\<lparr>is_used := True\<rparr>) (wallets example_system)\<rparr>))) =
     [True, False] \<and>
   pending_payment\<lparr>transaction_hash := ''tx2''\<rparr> \<in>
     set (expired_payments 5000
            (example_system\<lparr>payments := [tracked_payment, pending_payment\<lparr>transaction_hash := ''tx2''\<rparr>]\<rparr>)) \<and>
   wallets (monitor_transaction_confirmations 2000 example_check 1 example_system) =
     wallets example_system"
proof -
  have "map is_used
     (map (\<lambda>w. if wallet_payment w \<in> payment_id ` set (expired_payments 5000
                 (example_system\<lparr>wallets := map (\<lambda>w. w\<lparr>is_used := True\<rparr>) (wallets example_system)\<rparr>))
              then w\<lparr>is_used := False\<rparr> else w)
        (wallets (example_system\<lparr>wallets := map (\<lambda>w. w\<lparr>is_used := True\<rparr>) (wallets example_system)\<rparr>))) =
     [True, False]"
    by (simp add: run_defs example_defs)
  with expiry_sweep_releases_every_wallet [where now = 5000 and s =
      "example_system\<lparr>wallets := map (\<lambda>w. w\<lparr>is_used := True\<rparr>) (wallets example_system)\<rparr>"]
    expiry_sweep_releases_every_wallet [where now = 5000 and s =
      "example_system\<lparr>payments := [tracked_payment, pending_payment\<lparr>transaction_hash := ''tx2''\<rparr>]\<rparr>"
      and p = "pending_payment\<lparr>transaction_hash := ''tx2''\<rparr>"]
    expiry_sweep_releases_every_wallet [where now = 2000 and s = example_system
      and check = example_check and pid = 1]
  show ?thesis
    by (simp add: example_defs)
qed

text \<open>
  C3 fails as stated: after the webhook has recorded transaction \<open>tx2\<close> for payment 2
  its wallet is not marked used, the sweep expires the payment, and a wallet that was
  marked used is released by the sweep although the transaction is on file.
\<close>

theorem expiry_sweep_releases_wallet_after_transaction:
  "map (\<lambda>p. (status p, transaction_hash p))
     (payments (snd (payment_webhook 2000 ''provider'' (example_payload 2 ''tx2'' 1) example_system))) =
     [(Processing, ''tx1''), (Pending, ''tx2'')] \<and>
   map is_used
     (wallets (snd (payment_webhook 2000 ''provider'' (example_payload 2 ''tx2'' 1) example_system))) =
     [False, False] \<and>
   map (\<lambda>p. (status p, transaction_hash p))
     (payments (check_expired_payments 5000
        (snd (payment_webhook 2000 ''provider'' (example_payload 2 ''tx2'' 1) example_system)))) =
     [(Processing, ''tx1''), (Expired, ''tx2'')] \<and>
   map is_used
     (wallets (check_expired_payments 5000
        (snd (payment_webhook 2000 ''provider'' (example_payload 2 ''tx2'' 1)
               (example_system\<lparr>wallets := map (\<lambda>w. w\<lparr>is_used := True\<rparr>) (wallets example_system)\<rparr>))))) =
     [True, False]"
  by (simp add: run_defs example_defs)

text \<open>
  C9, as the code has it. A payment that reaches its threshold, through the webhook or
  the monitoring task, sets the order's status to paid and stamps \<open>paid_at\<close> with the
  current time, whatever the status of the order was.
\<close>

theorem threshold_always_marks_order_paid:
  assumes get: "Payment_get pid s = Some p" and ord: "Order_get (payment_order p) s = Some ord"
  shows "(data_payment_id d = pid \<and> data_confirmations d \<ge> required_confirmations p \<longrightarrow>
            Order_get (payment_order p) (snd (payment_webhook now prov d s)) =
              Some (ord\<lparr>order_status := Paid, paid_at := Some now, order_updated_at := now\<rparr>)) \<and>
         (status p = Processing \<and> transaction_hash p \<noteq> [] \<and>
          check (select_processor (crypto_currency p)) (transaction_hash p) = Some tx \<and>
          tx_confirmations tx \<ge> required_confirmations p \<longrightarrow>
            Order_get (payment_order p) (monitor_transaction_confirmations now check pid s) =
              Some (ord\<lparr>order_status := Paid, paid_at := Some now, order_updated_at := now\<rparr>))"
proof -
  note oid = Order_get_id [OF ord]
  have saved: "Order_get (payment_order p)
      (Payment_save now q
         (delay t (Order_save now (ord\<lparr>order_status := Paid, paid_at := Some now\<rparr>) s))) =
      Some (ord\<lparr>order_status := Paid, paid_at := Some now, order_updated_at := now\<rparr>)" for q t
  proof -
    have "Order_get (payment_order p)
        (Order_save now (ord\<lparr>order_status := Paid, paid_at := Some now\<rparr>) s) =
        Some (ord\<lparr>order_status := Paid, paid_at := Some now\<rparr>\<lparr>order_updated_at := now\<rparr>)"
      by (rule Order_get_Order_save [OF ord]) (simp add: oid)
    then show ?thesis by (simp add: Order_get_def)
  qed
  have "Order_get (payment_order p) (snd (payment_webhook now prov d s)) =
          Some (ord\<lparr>order_status := Paid, paid_at := Some now, order_updated_at := now\<rparr>)"
    if "data_payment_id d = pid" "data_confirmations d \<ge> required_confirmations p"
    using payment_webhook_found [of d s p ord now prov] get ord that saved by simp
  moreover have "Order_get (payment_order p) (monitor_transaction_confirmations now check pid s) =
          Some (ord\<lparr>order_status := Paid, paid_at := Some now, order_updated_at := now\<rparr>)"
    if "status p = Processing" "transaction_hash p \<noteq> []"
      "check (select_processor (crypto_currency p)) (transaction_hash p) = Some tx"
      "tx_confirmations tx \<ge> required_confirmations p"
    using monitor_transaction_confirmations_found [where check = check and tx = tx and now = now,
        OF get that(1-3) ord] that(4) saved by simp
  ultimately show ?thesis by blast
qed

theorem threshold_always_marks_order_paid_witness:
  "Payment_get 1 shipped_system = Some tracked_payment \<and>
   Order_get 1 shipped_system = Some (example_order\<lparr>order_status := Shipped, paid_at := Some 1500\<rparr>) \<and>
   Order_get 1 (snd (payment_webhook 3000 ''provider'' (example_payload 1 ''tx1'' 3) shipped_system)) =
     Some (example_order\<lparr>order_status := Paid, paid_at := Some 3000, order_updated_at := 3000\<rparr>) \<and>
   Order_get 1 (monitor_transaction_confirmations 3000 confirming_check 1 shipped_system) =
     Some (example_order\<lparr>order_status := Paid, paid_at := Some 3000, order_updated_at := 3000\<rparr>)"
proof -
  have get: "Payment_get 1 shipped_system = Some tracked_payment"
    by (simp add: shipped_system_def run_defs example_defs)
  have ord: "Order_get (payment_order tracked_payment) shipped_system =
      Some (example_order\<lparr>order_status := Shipped, paid_at := Some 1500\<rparr>)"
    by (simp add: shipped_system_def run_defs example_defs)
  have tr: "payment_order tracked_payment = 1" "required_confirmations tracked_payment = 3"
    "status tracked_payment = Processing" "transaction_hash tracked_payment \<noteq> []"
    by (simp_all add: example_defs)
  have ck: "confirming_check (select_processor (crypto_currency tracked_payment))
      (transaction_hash tracked_payment) = Some \<lparr>tx_confirmed = True, tx_confirmations = 3\<rparr>"
    by (simp add: confirming_check_def select_processor_def example_defs)
  from threshold_always_marks_order_paid [OF get ord, where d = "example_payload 1 ''tx1'' 3"
      and now = 3000 and prov = "''provider''" and check = confirming_check
      and tx = "\<lparr>tx_confirmed = True, tx_confirmations = 3\<rparr>"] get ord tr ck
  show ?thesis
    by (simp add: example_payload_def)
qed

text \<open>
  C9 fails as stated: an order that is shipped, paid at time 1500, is set back to paid
  and its \<open>paid_at\<close> becomes 3000.
\<close>

theorem mark_paid_overwrites_shipped_order:
  "map (\<lambda>ord. (order_status ord, paid_at ord)) (orders shipped_system) =
     [(Shipped, Some 1500), (OrderPending, None)] \<and>
   map (\<lambda>ord. (order_status ord, paid_at ord))
     (orders (snd (payment_webhook 3000 ''provider'' (example_payload 1 ''tx1'' 3) shipped_system))) =
     [(Paid, Some 3000), (OrderPending, None)] \<and>
   map (\<lambda>ord. (order_status ord, paid_at ord))
     (orders (monitor_transaction_confirmations 3000 confirming_check 1 shipped_system)) =
     [(Paid, Some 3000), (OrderPending, None)]"
  by (simp add: shipped_system_def run_defs example_defs confirming_check_def select_processor_def
      monitor_transaction_confirmations_def)

text \<open>
  C8, as the code has it. Applying a payload twice leaves the payments, orders and
  wallets that applying it once, at the time of the second application, leaves: the two
  results differ from a single earlier application only in the time stamps the webhook
  writes, and not at all when both applications read the same time.
\<close>

theorem webhook_twice_is_once_at_last_time:
  "payments (snd (payment_webhook now2 prov d (snd (payment_webhook now1 prov d s)))) =
     payments (snd (payment_webhook now2 prov d s)) \<and>
   orders (snd (payment_webhook now2 prov d (snd (payment_webhook now1 prov d s)))) =
     orders (snd (payment_webhook now2 prov d s)) \<and>
   wallets (snd (payment_webhook now2 prov d (snd (payment_webhook now1 prov d s)))) =
     wallets (snd (payment_webhook now2 prov d s))"
proof (cases "Payment_get (data_payment_id d) s")
  case None
  then show ?thesis by (simp add: payment_webhook_def)
next
  case (Some p)
  note get = Some
  note id = Payment_get_id [OF get]
  show ?thesis
  proof (cases "data_confirmations d \<ge> required_confirmations p")
    case False
    then have below: "data_confirmations d < required_confirmations p" by simp
    define p1 where "p1 = p\<lparr>transaction_hash := data_transaction_hash d,
                              confirmations := data_confirmations d\<rparr>"
    define q where "q = (p1\<lparr>updated_at := now1\<rparr>)\<lparr>transaction_hash := data_transaction_hash d,
                              confirmations := data_confirmations d\<rparr>"
    have id1: "payment_id p1 = data_payment_id d" using id by (simp add: p1_def)
    have s1: "snd (payment_webhook now1 prov d s) = Payment_save now1 p1 s"
      by (simp add: payment_webhook_below [OF get below] p1_def)
    have get1: "Payment_get (data_payment_id d) (Payment_save now1 p1 s) = Some (p1\<lparr>updated_at := now1\<rparr>)"
      by (rule Payment_get_Payment_save [OF get id1])
    have below1: "data_confirmations d < required_confirmations (p1\<lparr>updated_at := now1\<rparr>)"
      using below by (simp add: p1_def)
    have s2: "snd (payment_webhook now2 prov d (Payment_save now1 p1 s)) =
        Payment_save now2 q (Payment_save now1 p1 s)"
      unfolding q_def by (simp only: payment_webhook_below [OF get1 below1] snd_conv)
    have once: "snd (payment_webhook now2 prov d s) = Payment_save now2 p1 s"
      by (simp add: payment_webhook_below [OF get below] p1_def)
    have qid: "payment_id q = payment_id p1" by (simp add: q_def)
    have qeq: "q\<lparr>updated_at := now2\<rparr> = p1\<lparr>updated_at := now2\<rparr>" by (simp add: q_def p1_def)
    have "payments (Payment_save now2 q (Payment_save now1 p1 s)) = payments (Payment_save now2 p1 s)"
      by (rule Payment_save_twice [OF refl qid refl qeq])
    then show ?thesis
      unfolding s1 s2 once by simp
  next
    case True
    show ?thesis
    proof (cases "Order_get (payment_order p) s")
      case None
      with get True show ?thesis by (simp add: payment_webhook_def Let_def)
    next
      case (Some ord)
      define pc where "pc now = p\<lparr>transaction_hash := data_transaction_hash d,
          confirmations := data_confirmations d, status := Confirmed, confirmed_at := Some now\<rparr>" for now
      define oc where "oc now = ord\<lparr>order_status := Paid, paid_at := Some now\<rparr>" for now
      define e where "e = SendPaymentConfirmationEmail (payment_id p)"
      define confirm where "confirm now r o' t =
        Payment_save now r (delay e (Order_save now o' t))" for now r o' t
      have s1: "snd (payment_webhook now1 prov d s) = confirm now1 (pc now1) (oc now1) s"
        using True by (simp add: payment_webhook_found [OF get Some] pc_def oc_def e_def confirm_def)
      have once: "snd (payment_webhook now2 prov d s) = confirm now2 (pc now2) (oc now2) s"
        using True by (simp add: payment_webhook_found [OF get Some] pc_def oc_def e_def confirm_def)
      have get1: "Payment_get (data_payment_id d) (snd (payment_webhook now1 prov d s)) =
          Some ((pc now1)\<lparr>updated_at := now1\<rparr>)"
        using True by (simp add: payment_webhook_stored [OF get Some] pc_def)
      have ord1: "Order_get (payment_order ((pc now1)\<lparr>updated_at := now1\<rparr>))
            (snd (payment_webhook now1 prov d s)) =
          Some ((oc now1)\<lparr>order_updated_at := now1\<rparr>)"
        unfolding s1 confirm_def using Order_get_after_mark_paid [OF Some, of now1 "pc now1" e]
        by (simp add: pc_def oc_def)
      define q where "q = ((pc now1)\<lparr>updated_at := now1\<rparr>)\<lparr>transaction_hash := data_transaction_hash d,
          confirmations := data_confirmations d, status := Confirmed, confirmed_at := Some now2\<rparr>"
      define qo where "qo = ((oc now1)\<lparr>order_updated_at := now1\<rparr>)\<lparr>order_status := Paid, paid_at := Some now2\<rparr>"
      have True1: "data_confirmations d \<ge> required_confirmations ((pc now1)\<lparr>updated_at := now1\<rparr>)"
        using True by (simp add: pc_def)
      have e1: "SendPaymentConfirmationEmail (payment_id ((pc now1)\<lparr>updated_at := now1\<rparr>)) = e"
        by (simp add: pc_def e_def)
      have s2: "snd (payment_webhook now2 prov d (snd (payment_webhook now1 prov d s))) =
          confirm now2 q qo (snd (payment_webhook now1 prov d s))"
        unfolding q_def qo_def confirm_def e1 [symmetric]
        using True1 by (simp only: payment_webhook_found [OF get1 ord1] snd_conv if_True)
      have pay1: "payments (delay e (Order_save now2 qo (confirm now1 (pc now1) (oc now1) s))) =
          payments (Payment_save now1 (pc now1) s)"
        by (simp add: confirm_def Payment_save_def)
      have "payments (Payment_save now2 q
                (delay e (Order_save now2 qo (confirm now1 (pc now1) (oc now1) s)))) =
            payments (Payment_save now2 (pc now2) s)"
        by (rule Payment_save_twice [OF pay1]) (simp_all add: q_def pc_def)
      then have P: "payments (confirm now2 q qo (confirm now1 (pc now1) (oc now1) s)) =
          payments (confirm now2 (pc now2) (oc now2) s)"
        by (simp add: confirm_def Payment_save_def)
      have ord1': "orders (confirm now1 (pc now1) (oc now1) s) = orders (Order_save now1 (oc now1) s)"
        by (simp add: confirm_def)
      have "orders (Order_save now2 qo (confirm now1 (pc now1) (oc now1) s)) =
            orders (Order_save now2 (oc now2) s)"
        by (rule Order_save_twice [OF ord1']) (simp_all add: qo_def oc_def)
      then have O: "orders (confirm now2 q qo (confirm now1 (pc now1) (oc now1) s)) =
          orders (confirm now2 (pc now2) (oc now2) s)"
        by (simp add: confirm_def)
      have W: "wallets (confirm now2 q qo (confirm now1 (pc now1) (oc now1) s)) =
          wallets (confirm now2 (pc now2) (oc now2) s)"
        by (simp add: confirm_def)
      show ?thesis
        unfolding s2 once unfolding s1 using P O W by simp
    qed
  qed
qed

text \<open>
  C8 fails as stated: the second application of a payload that reaches the threshold
  moves \<open>confirmed_at\<close> and \<open>paid_at\<close> from 3000 to 4000.
\<close>

theorem webhook_twice_restamps_confirmation_time:
  "map confirmed_at
     (payments (snd (payment_webhook 3000 ''provider'' (example_payload 1 ''tx1'' 3) example_system))) =
     [Some 3000, None] \<and>
   map confirmed_at
     (payments (snd (payment_webhook 4000 ''provider'' (example_payload 1 ''tx1'' 3)
        (snd (payment_webhook 3000 ''provider'' (example_payload 1 ''tx1'' 3) example_system))))) =
     [Some 4000, None] \<and>
   map paid_at
     (orders (snd (payment_webhook 3000 ''provider'' (example_payload 1 ''tx1'' 3) example_system))) =
     [Some 3000, None] \<and>
   map paid_at
     (orders (snd (payment_webhook 4000 ''provider'' (example_payload 1 ''tx1'' 3)
        (snd (payment_webhook 3000 ''provider'' (example_payload 1 ''tx1'' 3) example_system))))) =
     [Some 4000, None]"
  by (simp add: run_defs example_defs)

text \<open>
  C5. For every order total with two decimals and at most ten digits, the amount the
  processors compute is the quotient of the total by the spot price rounded to 8 decimal
  places (Bitcoin) or 6 (Ethereum-style): the rounding of the quotient to 28 digits that
  \<open>Decimal\<close> does first never changes the result, at the prices the code reads and at
  every other positive price with two decimals. A payment that \<open>initiate_payment\<close>
  creates stores and returns that amount. An order of 49.00 at 35000.00 gives
  0.00140000 BTC.
\<close>

theorem crypto_amount_is_rounded_quotient:
  assumes "\<bar>n\<bar> < 10 ^ 10"
  shows "calculate_crypto_amount BitcoinPaymentProcessor (of_int n / 100) =
           Inr (spec_crypto_amount (of_int n / 100) get_btc_price 8) \<and>
         calculate_crypto_amount EthereumPaymentProcessor (of_int n / 100) =
           Inr (spec_crypto_amount (of_int n / 100) get_eth_price 6) \<and>
         (\<forall>m. 0 < m \<longrightarrow>
            calculate_crypto_amount_at (of_int m / 100) 8 (of_int n / 100) =
              Inr (spec_crypto_amount (of_int n / 100) (of_int m / 100) 8) \<and>
            calculate_crypto_amount_at (of_int m / 100) 6 (of_int n / 100) =
              Inr (spec_crypto_amount (of_int n / 100) (of_int m / 100) 6)) \<and>
         (\<forall>now gen auth data s r s' ord.
            initiate_payment now gen auth data s = (Response r, s') \<and>
            find (\<lambda>row. order_id row = data_order_id data \<and> order_user row = auth) (orders s) =
              Some ord \<and>
            total ord = of_int n / 100 \<longrightarrow>
            resp_crypto_amount r =
              (if data_payment_method data = crypto_btc
               then spec_crypto_amount (total ord) get_btc_price 8
               else spec_crypto_amount (total ord) get_eth_price 6) \<and>
            map_option crypto_amount (Payment_get (resp_payment_id r) s') =
              Some (Some (resp_crypto_amount r)))"
proof -
  note calc = calculate_crypto_amount_rounded [OF assms]
  have b8: "\<bar>n\<bar> * 10 ^ 8 < 10 ^ (prec - 1)" and b6: "\<bar>n\<bar> * 10 ^ 6 < 10 ^ (prec - 1)"
    using assms by (simp_all add: prec_def)
  have at: "calculate_crypto_amount_at (of_int m / 100) 8 (of_int n / 100) =
              Inr (spec_crypto_amount (of_int n / 100) (of_int m / 100) 8) \<and>
            calculate_crypto_amount_at (of_int m / 100) 6 (of_int n / 100) =
              Inr (spec_crypto_amount (of_int n / 100) (of_int m / 100) 6)" if "0 < m" for m
    using calculate_crypto_amount_at_rounded [OF that b8]
      calculate_crypto_amount_at_rounded [OF that b6] by simp
  have init: "resp_crypto_amount r =
              (if data_payment_method data = crypto_btc
               then spec_crypto_amount (total ord) get_btc_price 8
               else spec_crypto_amount (total ord) get_eth_price 6) \<and>
            map_option crypto_amount (Payment_get (resp_payment_id r) s') =
              Some (Some (resp_crypto_amount r))"
    if run: "initiate_payment now gen auth data s = (Response r, s')"
      and ord: "find (\<lambda>row. order_id row = data_order_id data \<and> order_user row = auth) (orders s) =
              Some ord"
      and tot: "total ord = of_int n / 100"
    for now gen auth data s r s' ord
  proof -
    from initiate_payment_Response [OF run ord]
    have c: "calculate_crypto_amount
           (if data_payment_method data = crypto_btc then BitcoinPaymentProcessor
            else EthereumPaymentProcessor) (total ord) = Inr (resp_crypto_amount r)"
      and st: "map_option (\<lambda>p. (status p, crypto_amount p)) (Payment_get (resp_payment_id r) s') =
           Some (Pending, Some (resp_crypto_amount r))"
      by simp_all
    from st have "map_option crypto_amount (Payment_get (resp_payment_id r) s') =
              Some (Some (resp_crypto_amount r))"
      by (cases "Payment_get (resp_payment_id r) s'") simp_all
    with c calc show ?thesis by (auto simp: tot split: if_splits)
  qed
  from calc at init show ?thesis by blast
qed

theorem crypto_amount_is_rounded_quotient_witness:
  "\<bar>4900 :: int\<bar> < 10 ^ 10 \<and>
   calculate_crypto_amount BitcoinPaymentProcessor 49 = Inr (140000 / 10 ^ 8) \<and>
   calculate_crypto_amount EthereumPaymentProcessor 49 = Inr (19600 / 10 ^ 6) \<and>
   calculate_crypto_amount_at 35000 8 49 = Inr (140000 / 10 ^ 8) \<and>
   map_option crypto_amount
     (Payment_get 2 (snd (initiate_payment 3000 example_generate_wallet 7 example_initiate unpaid_system))) =
     Some (Some (140000 / 10 ^ 8))"
proof -
  have n: "\<bar>4900 :: int\<bar> < 10 ^ 10" by simp
  have ord: "find (\<lambda>row. order_id row = data_order_id example_initiate \<and> order_user row = 7)
      (orders unpaid_system) = Some (example_order\<lparr>order_id := 2\<rparr>)"
    by (simp add: unpaid_system_def example_initiate_def example_defs)
  have tot: "total (example_order\<lparr>order_id := 2\<rparr>) = of_int 4900 / 100"
    by (simp add: example_defs)
  have v8: "spec_crypto_amount 49 35000 8 = 140000 / 10 ^ 8"
    and v6: "spec_crypto_amount 49 2500 6 = 19600 / 10 ^ 6"
    by (simp_all add: spec_crypto_amount_def round_half_even_def)
  note th = crypto_amount_is_rounded_quotient [OF n]
  from th have a: "calculate_crypto_amount BitcoinPaymentProcessor 49 = Inr (140000 / 10 ^ 8)"
    using v8 by (simp add: get_btc_price_def)
  from th have b: "calculate_crypto_amount EthereumPaymentProcessor 49 = Inr (19600 / 10 ^ 6)"
    using v6 by (simp add: get_eth_price_def)
  from th [THEN conjunct2, THEN conjunct2, THEN conjunct1, rule_format, of 3500000]
  have c: "calculate_crypto_amount_at 35000 8 49 = Inr (140000 / 10 ^ 8)"
    using v8 by simp
  from th [THEN conjunct2, THEN conjunct2, THEN conjunct2, rule_format,
      OF conjI [OF initiate_example conjI [OF ord tot]]]
  have d: "map_option crypto_amount
     (Payment_get 2 (snd (initiate_payment 3000 example_generate_wallet 7 example_initiate unpaid_system))) =
     Some (Some (140000 / 10 ^ 8))"
    by (simp add: initiate_example)
  from n a b c d show ?thesis by simp
qed




end
